theory Spec2Isabelle
  imports Main
begin

section \<open>The protocol v1 git-upload-pack response reader and writer\<close>

text \<open>
  A shallow embedding of \<^verbatim>\<open>v1uploadpackresp.go\<close>: the chunk type, its
  \<^verbatim>\<open>EncodeToPktLine\<close> method and the \<^verbatim>\<open>Scan\<close> method of
  \<^verbatim>\<open>ProtocolV1UploadPackResponse\<close>. Go strings and byte slices are byte
  sequences, here \<^typ>\<open>string\<close> (a list of 8-bit characters).
\<close>

subsection \<open>Go library functions the source calls\<close>

text \<open>\<^verbatim>\<open>bytes.HasPrefix(s, prefix)\<close>.\<close>

definition HasPrefix :: "string \<Rightarrow> string \<Rightarrow> bool" where
  "HasPrefix s p = (length p \<le> length s \<and> take (length p) s = p)"

text \<open>\<^verbatim>\<open>strings.TrimSuffix(s, suffix)\<close>: \<open>s\<close> without the suffix when it ends
  with it, \<open>s\<close> unchanged otherwise.\<close>

definition TrimSuffix :: "string \<Rightarrow> string \<Rightarrow> string" where
  "TrimSuffix s suf =
     (if length suf \<le> length s \<and> drop (length s - length suf) s = suf
      then take (length s - length suf) s else s)"

text \<open>\<^verbatim>\<open>strings.SplitN(s, sep, n)\<close> for a one-byte separator (the source only
  splits on \<^verbatim>\<open>" "\<close>) and \<open>n \<ge> 0\<close>: at most \<open>n\<close> pieces, the last one the
  unsplit remainder; no piece at all for \<open>n = 0\<close>.\<close>

fun SplitN :: "string \<Rightarrow> char \<Rightarrow> nat \<Rightarrow> string list" where
  "SplitN s sep 0 = []"
| "SplitN s sep (Suc 0) = [s]"
| "SplitN s sep (Suc (Suc n)) =
     (if sep \<in> set s
      then takeWhile (\<lambda>c. c \<noteq> sep) s # SplitN (tl (dropWhile (\<lambda>c. c \<noteq> sep) s)) sep (Suc n)
      else [s])"

abbreviation LF :: string where
  "LF \<equiv> [CHR 0x0A]"

abbreviation SP :: char where
  "SP \<equiv> CHR '' ''"

subsection \<open>Packets and the packet scanner\<close>

text \<open>
  Modelled from the spec: the \<^verbatim>\<open>Packet\<close> interface and its implementations are
  declared outside the source file. A frame is a flush frame or a byte-payload frame;
  \<open>OtherPacket\<close> stands for every other implementation of the interface (what the
  \<^verbatim>\<open>default\<close> branch of the type switch in \<^verbatim>\<open>Scan\<close> receives), with a tag.
\<close>

datatype packet = FlushPacket | BytesPacket string | OtherPacket string

text \<open>The type assertion \<^verbatim>\<open>pkt.(BytesPacket)\<close>.\<close>

fun as_BytesPacket :: "packet \<Rightarrow> string option" where
  "as_BytesPacket (BytesPacket bp) = Some bp"
| "as_BytesPacket _ = None"

text \<open>The type assertion \<^verbatim>\<open>pkt.(FlushPacket)\<close>.\<close>

fun is_FlushPacket :: "packet \<Rightarrow> bool" where
  "is_FlushPacket FlushPacket = True"
| "is_FlushPacket _ = False"

text \<open>Go \<^verbatim>\<open>error\<close> values: the repository's \<^verbatim>\<open>SyntaxError\<close> (a string), and
  any other error the underlying reader reports.\<close>

datatype error = SyntaxError string | OtherError string

text \<open>
  Modelled from the spec: the framing primitive \<^verbatim>\<open>PacketScanner\<close> (its
  \<^verbatim>\<open>Scan\<close>, \<^verbatim>\<open>Err\<close> and \<^verbatim>\<open>Packet\<close> methods) is not in the source file.
  It is a read operation returning the next frame, or indicating end-of-input
  (\<open>Inl None\<close>) or a read error (\<open>Inl (Some e)\<close>). The stream is the list of frames
  still to be read and the way it ends; a read at the end of the stream consumes
  nothing.
\<close>

record PacketScanner =
  frames :: "packet list"
  ending :: "error option"

definition scanner_read :: "PacketScanner \<Rightarrow> (error option + packet) \<times> PacketScanner" where
  "scanner_read s =
     (case frames s of
        [] \<Rightarrow> (Inl (ending s), s)
      | p # ps \<Rightarrow> (Inr p, s\<lparr>frames := ps\<rparr>))"

subsection \<open>Chunks and their encoding\<close>

record ProtocolV1UploadPackResponseChunk =
  ShallowObjectID :: string
  UnshallowObjectID :: string
  EndOfShallows :: bool
  AckObjectID :: string
  AckDetail :: string
  Nak :: bool
  PackStream :: string
  EndOfRequest :: bool

text \<open>The zero value of the struct, as \<^verbatim>\<open>&ProtocolV1UploadPackResponseChunk{}\<close>.\<close>

definition zero_chunk :: ProtocolV1UploadPackResponseChunk where
  "zero_chunk =
     \<lparr>ShallowObjectID = [], UnshallowObjectID = [], EndOfShallows = False,
      AckObjectID = [], AckDetail = [], Nak = False, PackStream = [],
      EndOfRequest = False\<rparr>"

text \<open>A Go \<^verbatim>\<open>panic\<close> with its message.\<close>

datatype fault = Panic string

text \<open>
  \<^verbatim>\<open>EncodeToPktLine\<close>. The serialisation of a packet into its pkt-line bytes
  (\<^verbatim>\<open>BytesPacket.EncodeToPktLine\<close>, \<^verbatim>\<open>FlushPacket.EncodeToPktLine\<close>) belongs to
  the framing layer outside the source file and is the parameter \<open>pktline\<close>.
\<close>

definition EncodeToPktLine ::
  "(packet \<Rightarrow> 'w) \<Rightarrow> ProtocolV1UploadPackResponseChunk \<Rightarrow> fault + 'w" where
  "EncodeToPktLine pktline c =
     (if ShallowObjectID c \<noteq> [] then
        Inr (pktline (BytesPacket (''shallow '' @ ShallowObjectID c @ LF)))
      else if UnshallowObjectID c \<noteq> [] then
        Inr (pktline (BytesPacket (''unshallow '' @ UnshallowObjectID c @ LF)))
      else if EndOfShallows c then
        Inr (pktline FlushPacket)
      else if AckObjectID c \<noteq> [] then
        (if AckDetail c \<noteq> [] then
           Inr (pktline (BytesPacket (''ACK '' @ AckObjectID c @ '' '' @ AckDetail c @ LF)))
         else
           Inr (pktline (BytesPacket (''ACK '' @ AckObjectID c @ LF))))
      else if Nak c then
        Inr (pktline (BytesPacket (''NAK'' @ LF)))
      else if length (PackStream c) \<noteq> 0 then
        Inr (pktline (BytesPacket (PackStream c)))
      else if EndOfRequest c then
        Inr (pktline FlushPacket)
      else Inl (Panic ''impossible chunk''))"

subsection \<open>The response reader\<close>

datatype protocolV1UploadPackResponseState =
    StateBegin
  | StateScanShallows
  | StateScanUnshallows
  | StateBeginAcknowledgements
  | StateScanAcknowledgements
  | StateScanPacks
  | StateEnd

text \<open>The integer value \<^verbatim>\<open>iota\<close> gives each state constant.\<close>

fun state_value :: "protocolV1UploadPackResponseState \<Rightarrow> nat" where
  "state_value StateBegin = 0"
| "state_value StateScanShallows = 1"
| "state_value StateScanUnshallows = 2"
| "state_value StateBeginAcknowledgements = 3"
| "state_value StateScanAcknowledgements = 4"
| "state_value StateScanPacks = 5"
| "state_value StateEnd = 6"

record ProtocolV1UploadPackResponse =
  scanner :: PacketScanner
  state :: protocolV1UploadPackResponseState
  err :: "error option"
  curr :: "ProtocolV1UploadPackResponseChunk option"

definition NewProtocolV1UploadPackResponse :: "PacketScanner \<Rightarrow> ProtocolV1UploadPackResponse" where
  "NewProtocolV1UploadPackResponse rd =
     \<lparr>scanner = rd, state = StateBegin, err = None, curr = None\<rparr>"

definition Err :: "ProtocolV1UploadPackResponse \<Rightarrow> error option" where
  "Err r = err r"

definition Chunk :: "ProtocolV1UploadPackResponse \<Rightarrow> ProtocolV1UploadPackResponseChunk option" where
  "Chunk r = curr r"

text \<open>
  The body of \<^verbatim>\<open>Scan\<close> after a packet has been read is a \<^verbatim>\<open>switch\<close> on the state
  whose cases fall through to the next one. Each case is a function that ends in the
  next case where the source says \<^verbatim>\<open>fallthrough\<close>. The parameter \<open>gosyntax\<close> is the
  rendering \<^verbatim>\<open>fmt.Sprintf("%#v", pkt)\<close> of a packet.
\<close>

text \<open>\<^verbatim>\<open>case protocolV1UploadPackResponseStateScanPacks\<close>.\<close>

definition case_ScanPacks ::
  "(packet \<Rightarrow> string) \<Rightarrow> packet \<Rightarrow> ProtocolV1UploadPackResponse \<Rightarrow> bool \<times> ProtocolV1UploadPackResponse" where
  "case_ScanPacks gosyntax pkt r =
     (case pkt of
        FlushPacket \<Rightarrow>
          (True, r\<lparr>state := StateEnd, curr := Some (zero_chunk\<lparr>EndOfRequest := True\<rparr>)\<rparr>)
      | BytesPacket p \<Rightarrow>
          (True, r\<lparr>state := StateScanPacks, curr := Some (zero_chunk\<lparr>PackStream := p\<rparr>)\<rparr>)
      | OtherPacket t \<Rightarrow>
          (False, r\<lparr>err := Some (SyntaxError (''unexpected packet: '' @ gosyntax pkt))\<rparr>))"

text \<open>\<^verbatim>\<open>case ...StateBeginAcknowledgements, ...StateScanAcknowledgements\<close>.\<close>

definition case_Acknowledgements ::
  "(packet \<Rightarrow> string) \<Rightarrow> packet \<Rightarrow> ProtocolV1UploadPackResponse \<Rightarrow> bool \<times> ProtocolV1UploadPackResponse" where
  "case_Acknowledgements gosyntax pkt r =
     (let rest =
        (if state r = StateBegin
         then (False, r\<lparr>err := Some (SyntaxError (''unexpected packet: '' @ gosyntax pkt))\<rparr>)
         else case_ScanPacks gosyntax pkt r)
      in
      case as_BytesPacket pkt of
        Some bp \<Rightarrow>
          if HasPrefix bp ''ACK '' then
            (let ss = SplitN (TrimSuffix bp LF) SP 3 in
             if length ss < 2 then
               (False, r\<lparr>err := Some (SyntaxError (''cannot split ACK: '' @ bp))\<rparr>)
             else
               (let detail = (if length ss = 3 then ss ! 2 else []) in
                (True, r\<lparr>state := StateScanAcknowledgements,
                          curr := Some (zero_chunk\<lparr>AckObjectID := ss ! 1, AckDetail := detail\<rparr>)\<rparr>)))
          else if bp = ''NAK'' @ LF then
            (True, r\<lparr>state := StateScanPacks, curr := Some (zero_chunk\<lparr>Nak := True\<rparr>)\<rparr>)
          else rest
      | None \<Rightarrow> rest)"

text \<open>\<^verbatim>\<open>case protocolV1UploadPackResponseStateScanUnshallows\<close>.\<close>

definition case_ScanUnshallows ::
  "(packet \<Rightarrow> string) \<Rightarrow> packet \<Rightarrow> ProtocolV1UploadPackResponse \<Rightarrow> bool \<times> ProtocolV1UploadPackResponse" where
  "case_ScanUnshallows gosyntax pkt r =
     (let rest =
        (if is_FlushPacket pkt then
           (True, r\<lparr>state := StateBeginAcknowledgements,
                     curr := Some (zero_chunk\<lparr>EndOfShallows := True\<rparr>)\<rparr>)
         else case_Acknowledgements gosyntax pkt r)
      in
      case as_BytesPacket pkt of
        Some bp \<Rightarrow>
          if HasPrefix bp ''unshallow '' then
            (let ss = SplitN (TrimSuffix bp LF) SP 2 in
             if length ss < 2 then
               (False, r\<lparr>err := Some (SyntaxError (''cannot split unshallow: '' @ bp))\<rparr>)
             else
               (True, r\<lparr>state := StateScanUnshallows,
                         curr := Some (zero_chunk\<lparr>UnshallowObjectID := ss ! 1\<rparr>)\<rparr>))
          else rest
      | None \<Rightarrow> rest)"

text \<open>\<^verbatim>\<open>case ...StateBegin, ...StateScanShallows\<close>.\<close>

definition case_ScanShallows ::
  "(packet \<Rightarrow> string) \<Rightarrow> packet \<Rightarrow> ProtocolV1UploadPackResponse \<Rightarrow> bool \<times> ProtocolV1UploadPackResponse" where
  "case_ScanShallows gosyntax pkt r =
     (case as_BytesPacket pkt of
        Some bp \<Rightarrow>
          if HasPrefix bp ''shallow '' then
            (let ss = SplitN (TrimSuffix bp LF) SP 2 in
             if length ss < 2 then
               (False, r\<lparr>err := Some (SyntaxError (''cannot split shallow: '' @ bp))\<rparr>)
             else
               (True, r\<lparr>state := StateScanShallows,
                         curr := Some (zero_chunk\<lparr>ShallowObjectID := ss ! 1\<rparr>)\<rparr>))
          else case_ScanUnshallows gosyntax pkt r
      | None \<Rightarrow> case_ScanUnshallows gosyntax pkt r)"

text \<open>
  \<^verbatim>\<open>Scan\<close>: the returned boolean and the reader after the call, or the panic that
  ends the source function when no case of the switch returns.
\<close>

definition Scan ::
  "(packet \<Rightarrow> string) \<Rightarrow> ProtocolV1UploadPackResponse \<Rightarrow> fault + (bool \<times> ProtocolV1UploadPackResponse)" where
  "Scan gosyntax r =
     (if err r \<noteq> None \<or> state r = StateEnd then Inr (False, r)
      else
        case scanner_read (scanner r) of
          (Inl e, s) \<Rightarrow>
            (let r1 = r\<lparr>scanner := s, err := e\<rparr> in
             if err r1 = None \<and> state r1 \<noteq> StateBeginAcknowledgements
             then Inr (False, r1\<lparr>err := Some (SyntaxError ''early EOF'')\<rparr>)
             else Inr (False, r1))
        | (Inr pkt, s) \<Rightarrow>
            (let r1 = r\<lparr>scanner := s\<rparr> in
             case state r1 of
               StateBegin \<Rightarrow> Inr (case_ScanShallows gosyntax pkt r1)
             | StateScanShallows \<Rightarrow> Inr (case_ScanShallows gosyntax pkt r1)
             | StateScanUnshallows \<Rightarrow> Inr (case_ScanUnshallows gosyntax pkt r1)
             | StateBeginAcknowledgements \<Rightarrow> Inr (case_Acknowledgements gosyntax pkt r1)
             | StateScanAcknowledgements \<Rightarrow> Inr (case_Acknowledgements gosyntax pkt r1)
             | StateScanPacks \<Rightarrow> Inr (case_ScanPacks gosyntax pkt r1)
             | StateEnd \<Rightarrow> Inl (Panic ''impossible state'')))"

text \<open>The reader after \<open>n\<close> successive calls of \<^verbatim>\<open>Scan\<close> (a panic ends the run).\<close>

primrec ScanN ::
  "(packet \<Rightarrow> string) \<Rightarrow> nat \<Rightarrow> ProtocolV1UploadPackResponse \<Rightarrow> ProtocolV1UploadPackResponse" where
  "ScanN gosyntax 0 r = r"
| "ScanN gosyntax (Suc n) r =
     (case Scan gosyntax r of
        Inr (ok, r') \<Rightarrow> ScanN gosyntax n r'
      | Inl p \<Rightarrow> r)"

subsection \<open>Notions the properties are stated with\<close>

text \<open>
  The seven variants of a chunk, in the order of the struct's fields; \<open>AckDetail\<close> is
  a qualifier of the acknowledgement, not a variant. A variant is populated when its
  string or byte field is non-empty or its flag is set.
\<close>

definition variants :: "ProtocolV1UploadPackResponseChunk \<Rightarrow> bool list" where
  "variants c =
     [ShallowObjectID c \<noteq> [], UnshallowObjectID c \<noteq> [], EndOfShallows c,
      AckObjectID c \<noteq> [], Nak c, PackStream c \<noteq> [], EndOfRequest c]"

definition populated :: "ProtocolV1UploadPackResponseChunk \<Rightarrow> nat" where
  "populated c = length (filter (\<lambda>b. b) (variants c))"

text \<open>A well-formed event: exactly one variant is populated, and a detail is present
  only on an acknowledgement.\<close>

definition well_formed :: "ProtocolV1UploadPackResponseChunk \<Rightarrow> bool" where
  "well_formed c \<longleftrightarrow> populated c = 1 \<and> (AckDetail c = [] \<or> AckObjectID c \<noteq> [])"

text \<open>
  When the frame of a well-formed chunk is read back as that chunk, by the state of
  the reader. Each event is read in the states of the rule that produces it and in the
  states that fall through to that rule. An acknowledgement is split at spaces, so its
  object id must have none. Pack data is read by the last rule, which every state but
  the first and the last reaches, after the rules for the lines have been tried: its
  bytes must not start a line one of those rules takes.
\<close>

definition reads_back_in ::
  "ProtocolV1UploadPackResponseChunk \<Rightarrow> protocolV1UploadPackResponseState \<Rightarrow> bool" where
  "reads_back_in c st =
     (if ShallowObjectID c \<noteq> [] then
        st = StateBegin \<or> st = StateScanShallows
      else if UnshallowObjectID c \<noteq> [] \<or> EndOfShallows c then
        st = StateBegin \<or> st = StateScanShallows \<or> st = StateScanUnshallows
      else if AckObjectID c \<noteq> [] then
        SP \<notin> set (AckObjectID c) \<and>
        (st = StateBegin \<or> st = StateScanShallows \<or> st = StateScanUnshallows \<or>
         st = StateBeginAcknowledgements \<or> st = StateScanAcknowledgements)
      else if Nak c then
        st = StateBegin \<or> st = StateScanShallows \<or> st = StateScanUnshallows \<or>
        st = StateBeginAcknowledgements \<or> st = StateScanAcknowledgements
      else if PackStream c \<noteq> [] then
        st = StateScanPacks \<or>
        ((st = StateScanShallows \<or> st = StateScanUnshallows \<or>
          st = StateBeginAcknowledgements \<or> st = StateScanAcknowledgements) \<and>
         (st = StateScanShallows \<longrightarrow> \<not> HasPrefix (PackStream c) ''shallow '') \<and>
         (st = StateScanShallows \<or> st = StateScanUnshallows \<longrightarrow>
            \<not> HasPrefix (PackStream c) ''unshallow '') \<and>
         \<not> HasPrefix (PackStream c) ''ACK '' \<and> PackStream c \<noteq> ''NAK'' @ LF)
      else
        st = StateBeginAcknowledgements \<or> st = StateScanAcknowledgements \<or>
        st = StateScanPacks)"

text \<open>The byte payload of a packet starts with the given literal.\<close>

definition payload_prefix :: "packet \<Rightarrow> string \<Rightarrow> bool" where
  "payload_prefix pkt p = (case pkt of BytesPacket bp \<Rightarrow> HasPrefix bp p | _ \<Rightarrow> False)"

text \<open>The case of the switch in \<^verbatim>\<open>Scan\<close> that a state other than the last one
  enters.\<close>

definition dispatch ::
  "protocolV1UploadPackResponseState \<Rightarrow> (packet \<Rightarrow> string) \<Rightarrow> packet \<Rightarrow>
   ProtocolV1UploadPackResponse \<Rightarrow> bool \<times> ProtocolV1UploadPackResponse" where
  "dispatch st =
     (if state_value st \<le> 1 then case_ScanShallows
      else if st = StateScanUnshallows then case_ScanUnshallows
      else if state_value st \<le> 4 then case_Acknowledgements
      else case_ScanPacks)"

section \<open>Properties\<close>

subsection \<open>Facts about the library functions\<close>

lemma HasPrefix_Nil [simp]: "HasPrefix s [] = True"
  by (simp add: HasPrefix_def)

lemma HasPrefix_Nil_Cons [simp]: "HasPrefix [] (b # p) = False"
  by (simp add: HasPrefix_def)

lemma HasPrefix_Cons_Cons [simp]: "HasPrefix (a # s) (b # p) \<longleftrightarrow> a = b \<and> HasPrefix s p"
  by (auto simp: HasPrefix_def)

lemma TrimSuffix_LF:
  "TrimSuffix s LF = (if s \<noteq> [] \<and> last s = CHR 0x0A then butlast s else s)"
proof (cases s rule: rev_cases)
  case Nil
  then show ?thesis by (simp add: TrimSuffix_def)
next
  case (snoc xs x)
  then show ?thesis by (auto simp: TrimSuffix_def)
qed

lemma TrimSuffix_LF_append [simp]: "TrimSuffix (xs @ LF) LF = xs"
  by (simp add: TrimSuffix_LF)

lemma TrimSuffix_LF_Cons [simp]:
  "xs \<noteq> [] \<Longrightarrow> TrimSuffix (a # xs) LF = a # TrimSuffix xs LF"
  by (simp add: TrimSuffix_LF)

lemma TrimSuffix_LF_single [simp]:
  "TrimSuffix [a] LF = (if a = CHR 0x0A then [] else [a])"
  by (simp add: TrimSuffix_LF)

lemma SplitN_2:
  "SplitN s sep 2 =
     (if sep \<in> set s
      then [takeWhile (\<lambda>c. c \<noteq> sep) s, tl (dropWhile (\<lambda>c. c \<noteq> sep) s)]
      else [s])"
  by (simp add: numeral_2_eq_2)

lemma SplitN_3:
  "SplitN s sep 3 =
     (if sep \<in> set s
      then takeWhile (\<lambda>c. c \<noteq> sep) s # SplitN (tl (dropWhile (\<lambda>c. c \<noteq> sep) s)) sep 2
      else [s])"
  by (simp add: numeral_3_eq_3 numeral_2_eq_2)

lemma SplitN_length: "sep \<in> set s \<Longrightarrow> 2 \<le> length (SplitN s sep (Suc (Suc n)))"
  by (cases n) auto

text \<open>A payload that starts with a literal containing a space still contains that
  space once its trailing newline is trimmed.\<close>

lemma prefix_split:
  assumes "HasPrefix bp p" and "SP \<in> set p" and "CHR 0x0A \<notin> set p"
  shows "SP \<in> set (TrimSuffix bp LF)"
proof -
  from assms(1) have bp: "bp = p @ drop (length p) bp"
    by (metis HasPrefix_def append_take_drop_id)
  show ?thesis
  proof (cases "drop (length p) bp = []")
    case True
    with bp have "bp = p" by simp
    moreover from assms(2) have "p \<noteq> []" by auto
    moreover from this assms(3) have "last p \<noteq> CHR 0x0A"
      by (metis last_in_set)
    ultimately show ?thesis using assms(2) by (simp add: TrimSuffix_LF)
  next
    case False
    then have "butlast bp = p @ butlast (drop (length p) bp)"
      using bp by (metis butlast_append)
    then have "SP \<in> set (butlast bp)" using assms(2) by simp
    moreover have "SP \<in> set bp" using bp assms(2) by (metis Un_iff set_append)
    ultimately show ?thesis by (simp add: TrimSuffix_LF)
  qed
qed

subsection \<open>One call of Scan\<close>

text \<open>A case of the switch that returns false has recorded the unexpected-packet
  error and nothing else; one that returns true has produced a chunk and moved to a
  state that is not earlier.\<close>

lemma case_ScanPacks_False:
  "case_ScanPacks f pkt r = (False, r') \<Longrightarrow>
     r' = r\<lparr>err := Some (SyntaxError (''unexpected packet: '' @ f pkt))\<rparr>"
  by (auto simp: case_ScanPacks_def split: packet.splits)

lemma case_Acknowledgements_False:
  "case_Acknowledgements f pkt r = (False, r') \<Longrightarrow>
     r' = r\<lparr>err := Some (SyntaxError (''unexpected packet: '' @ f pkt))\<rparr>"
  using prefix_split [of _ "''ACK ''"] SplitN_length [of SP _ "Suc 0"]
  by (auto simp: case_Acknowledgements_def Let_def numeral_3_eq_3 not_less
      split: option.splits if_splits dest!: case_ScanPacks_False)

lemma case_ScanUnshallows_False:
  "case_ScanUnshallows f pkt r = (False, r') \<Longrightarrow>
     r' = r\<lparr>err := Some (SyntaxError (''unexpected packet: '' @ f pkt))\<rparr>"
  using prefix_split [of _ "''unshallow ''"] SplitN_length [of SP _ "0"]
  by (auto simp: case_ScanUnshallows_def Let_def numeral_2_eq_2 not_less
      split: option.splits if_splits dest!: case_Acknowledgements_False)

lemma case_ScanShallows_False:
  "case_ScanShallows f pkt r = (False, r') \<Longrightarrow>
     r' = r\<lparr>err := Some (SyntaxError (''unexpected packet: '' @ f pkt))\<rparr>"
  using prefix_split [of _ "''shallow ''"] SplitN_length [of SP _ "0"]
  by (auto simp: case_ScanShallows_def Let_def numeral_2_eq_2 not_less
      split: option.splits if_splits dest!: case_ScanUnshallows_False)


lemma case_ScanPacks_True:
  "case_ScanPacks f pkt r = (True, r') \<Longrightarrow>
     err r' = err r \<and> scanner r' = scanner r \<and> curr r' \<noteq> None \<and>
     5 \<le> state_value (state r')"
  by (auto simp: case_ScanPacks_def split: packet.splits)

lemma case_Acknowledgements_True:
  "case_Acknowledgements f pkt r = (True, r') \<Longrightarrow>
     err r' = err r \<and> scanner r' = scanner r \<and> curr r' \<noteq> None \<and>
     4 \<le> state_value (state r')"
  by (auto simp: case_Acknowledgements_def Let_def
      split: option.splits if_splits dest!: case_ScanPacks_True)

lemma case_ScanUnshallows_True:
  "case_ScanUnshallows f pkt r = (True, r') \<Longrightarrow>
     err r' = err r \<and> scanner r' = scanner r \<and> curr r' \<noteq> None \<and>
     2 \<le> state_value (state r')"
  by (auto simp: case_ScanUnshallows_def Let_def
      split: option.splits if_splits dest!: case_Acknowledgements_True)

lemma case_ScanShallows_True:
  "case_ScanShallows f pkt r = (True, r') \<Longrightarrow>
     err r' = err r \<and> scanner r' = scanner r \<and> curr r' \<noteq> None \<and>
     1 \<le> state_value (state r')"
  by (auto simp: case_ScanShallows_def Let_def
      split: option.splits if_splits dest!: case_ScanUnshallows_True)


lemma Scan_stopped: "err r \<noteq> None \<or> state r = StateEnd \<Longrightarrow> Scan f r = Inr (False, r)"
  by (simp add: Scan_def)

lemma Scan_eof:
  assumes "err r = None" "state r \<noteq> StateEnd" "frames (scanner r) = []"
  shows "Scan f r =
     Inr (False, r\<lparr>err :=
       (case ending (scanner r) of
          Some e \<Rightarrow> Some e
        | None \<Rightarrow> if state r = StateBeginAcknowledgements then None
                  else Some (SyntaxError ''early EOF''))\<rparr>)"
  using assms by (auto simp: Scan_def Let_def scanner_read_def split: option.splits)

lemma Scan_frame:
  assumes "err r = None" "state r \<noteq> StateEnd" "frames (scanner r) = pkt # ps"
  shows "Scan f r = Inr (dispatch (state r) f pkt (r\<lparr>scanner := (scanner r)\<lparr>frames := ps\<rparr>\<rparr>))"
  using assms by (cases "state r") (simp_all add: Scan_def Let_def scanner_read_def dispatch_def)

lemma dispatch_False:
  "dispatch st f pkt r = (False, r') \<Longrightarrow>
     r' = r\<lparr>err := Some (SyntaxError (''unexpected packet: '' @ f pkt))\<rparr>"
  by (auto simp: dispatch_def split: if_splits
      dest: case_ScanShallows_False case_ScanUnshallows_False case_Acknowledgements_False case_ScanPacks_False)

lemma dispatch_True:
  "dispatch st f pkt r = (True, r') \<Longrightarrow> st = state r \<Longrightarrow> st \<noteq> StateEnd \<Longrightarrow> 
     err r' = err r \<and> scanner r' = scanner r \<and> curr r' \<noteq> None \<and>
     state_value st \<le> state_value (state r') \<and> 1 \<le> state_value (state r')"
  by (cases st) (auto simp: dispatch_def split: if_splits
      dest!: case_ScanShallows_True case_ScanUnshallows_True case_Acknowledgements_True case_ScanPacks_True)

text \<open>Every call of Scan returns.\<close>

lemma Scan_returns: "\<exists>ok r'. Scan f r = Inr (ok, r')"
proof (cases "err r \<noteq> None \<or> state r = StateEnd")
  case True
  then show ?thesis using Scan_stopped by blast
next
  case False
  then have a: "err r = None" "state r \<noteq> StateEnd" by auto
  show ?thesis
  proof (cases "frames (scanner r)")
    case Nil
    from Scan_eof [OF a Nil] show ?thesis by blast
  next
    case (Cons pkt ps)
    from Scan_frame [OF a Cons] show ?thesis by (metis surj_pair)
  qed
qed

text \<open>What one call of Scan does, by cases.\<close>

lemma Scan_cases:
  assumes "Scan f r = Inr (ok, r')"
  obtains
    (stopped) "err r \<noteq> None \<or> state r = StateEnd" "\<not> ok" "r' = r"
  | (eof) "err r = None" "state r \<noteq> StateEnd" "frames (scanner r) = []" "\<not> ok"
      "r' = r\<lparr>err := (case ending (scanner r) of Some e \<Rightarrow> Some e
            | None \<Rightarrow> if state r = StateBeginAcknowledgements then None
                  else Some (SyntaxError ''early EOF''))\<rparr>"
  | (rejected) pkt ps where "err r = None" "state r \<noteq> StateEnd" "frames (scanner r) = pkt # ps" "\<not> ok"
      "r' = r\<lparr>scanner := (scanner r)\<lparr>frames := ps\<rparr>,
              err := Some (SyntaxError (''unexpected packet: '' @ f pkt))\<rparr>"
  | (accepted) pkt ps where "err r = None" "state r \<noteq> StateEnd" "frames (scanner r) = pkt # ps" "ok"
      "err r' = None" "scanner r' = (scanner r)\<lparr>frames := ps\<rparr>" "curr r' \<noteq> None"
      "state_value (state r) \<le> state_value (state r')" "1 \<le> state_value (state r')"
proof (cases "err r \<noteq> None \<or> state r = StateEnd")
  case True
  with assms have "\<not> ok" "r' = r" by (simp_all add: Scan_stopped)
  with True show ?thesis by (rule stopped)
next
  case False
  then have a: "err r = None" "state r \<noteq> StateEnd" by auto
  show ?thesis
  proof (cases "frames (scanner r)")
    case Nil
    from assms have "\<not> ok" and "r' = r\<lparr>err := (case ending (scanner r) of Some e \<Rightarrow> Some e
            | None \<Rightarrow> if state r = StateBeginAcknowledgements then None
                  else Some (SyntaxError ''early EOF''))\<rparr>"
      unfolding Scan_eof [OF a Nil] by simp_all
    with a Nil show ?thesis by (rule eof)
  next
    case (Cons pkt ps)
    let ?r1 = "r\<lparr>scanner := (scanner r)\<lparr>frames := ps\<rparr>\<rparr>"
    from assms have d: "dispatch (state r) f pkt ?r1 = (ok, r')"
      unfolding Scan_frame [OF a Cons] by simp
    show ?thesis
    proof (cases ok)
      case True
      with d have "dispatch (state ?r1) f pkt ?r1 = (True, r')" by simp
      from dispatch_True [OF this] a
      have "err r' = None" "scanner r' = (scanner r)\<lparr>frames := ps\<rparr>" "curr r' \<noteq> None"
        "state_value (state r) \<le> state_value (state r')" "1 \<le> state_value (state r')"
        by simp_all
      with a Cons True show ?thesis by (rule accepted)
    next
      case False
      with d have "dispatch (state r) f pkt ?r1 = (False, r')" by simp
      from dispatch_False [OF this]
      have "r' = r\<lparr>scanner := (scanner r)\<lparr>frames := ps\<rparr>,
              err := Some (SyntaxError (''unexpected packet: '' @ f pkt))\<rparr>" by simp
      with a Cons False show ?thesis by (rule rejected)
    qed
  qed
qed

subsection \<open>Evaluating the reader on concrete frames\<close>

lemmas run_simps =
  Scan_def Let_def scanner_read_def case_ScanShallows_def case_ScanUnshallows_def
  case_Acknowledgements_def case_ScanPacks_def NewProtocolV1UploadPackResponse_def
  zero_chunk_def SplitN_2 SplitN_3 Err_def Chunk_def

subsection \<open>Stopping\<close>

lemma Scan_False_fixed:
  assumes "Scan f r = Inr (False, r')"
  shows "Scan f r' = Inr (False, r')"
  using assms
proof (cases rule: Scan_cases)
  case stopped
  then show ?thesis by (simp add: Scan_stopped)
next
  case eof
  show ?thesis
  proof (cases "err r' = None")
    case True
    with eof have "r' = r" by (auto split: option.splits if_splits)
    with True eof Scan_eof [of r f] show ?thesis by (auto split: option.splits if_splits)
  next
    case False
    then show ?thesis by (simp add: Scan_stopped)
  qed
next
  case (rejected pkt ps)
  then show ?thesis by (simp add: Scan_stopped)
next
  case (accepted pkt ps)
  then show ?thesis by simp
qed

lemma ScanN_fixed: "Scan f r = Inr (False, r) \<Longrightarrow> ScanN f n r = r"
  by (induction n) simp_all

text \<open>
  C7 (idempotent termination). Once a call of Scan has returned false, leaving the
  reader \<open>r'\<close>, any number \<open>n\<close> of further calls leave the reader exactly as it is,
  and the call after them returns false again: the error that \<open>Err\<close> reports is the
  one first recorded, and the frames still to be read are untouched, since the whole
  reader, scanner included, is unchanged.
\<close>

theorem idempotent_termination:
  assumes "Scan f r = Inr (False, r')"
  shows "ScanN f n r' = r' \<and> Scan f (ScanN f n r') = Inr (False, r')"
  using Scan_False_fixed [OF assms] by (simp add: ScanN_fixed)

text \<open>The clean stop after the closing flush of the shallow phase: Scan returns false
  with no error, and three more calls change nothing.\<close>

theorem idempotent_termination_witness:
  "Scan (\<lambda>p. ''pkt'')
     \<lparr>scanner = \<lparr>frames = [], ending = None\<rparr>, state = StateBeginAcknowledgements,
      err = None, curr = Some (zero_chunk\<lparr>EndOfShallows := True\<rparr>)\<rparr> =
   Inr (False,
     \<lparr>scanner = \<lparr>frames = [], ending = None\<rparr>, state = StateBeginAcknowledgements,
      err = None, curr = Some (zero_chunk\<lparr>EndOfShallows := True\<rparr>)\<rparr>) \<and>
   ScanN (\<lambda>p. ''pkt'') 3
     \<lparr>scanner = \<lparr>frames = [], ending = None\<rparr>, state = StateBeginAcknowledgements,
      err = None, curr = Some (zero_chunk\<lparr>EndOfShallows := True\<rparr>)\<rparr> =
     \<lparr>scanner = \<lparr>frames = [], ending = None\<rparr>, state = StateBeginAcknowledgements,
      err = None, curr = Some (zero_chunk\<lparr>EndOfShallows := True\<rparr>)\<rparr>"
proof -
  let ?r = "\<lparr>scanner = \<lparr>frames = [], ending = None\<rparr>, state = StateBeginAcknowledgements,
      err = None, curr = Some (zero_chunk\<lparr>EndOfShallows := True\<rparr>)\<rparr>"
  have s: "Scan (\<lambda>p. ''pkt'') ?r = Inr (False, ?r)"
    by (simp add: Scan_def scanner_read_def)
  from idempotent_termination [OF s, of 3] s show ?thesis by simp
qed

text \<open>
  C3 (end-of-stream policy). When the stream reports end-of-input with no error to a
  reader that has not stopped, Scan returns false and changes nothing but the error:
  none when the state is exactly the one that follows the closing flush of the shallow
  phase, the syntax error \<open>early EOF\<close> in every other state. In particular a stream
  of one flush frame gives the end-of-shallows chunk and then stops with no error, and
  end-of-input in the pack state is the \<open>early EOF\<close> error.
\<close>

theorem end_of_stream_policy:
  "(err r = None \<and> state r \<noteq> StateEnd \<and> frames (scanner r) = [] \<and> ending (scanner r) = None \<longrightarrow>
      Scan f r =
        Inr (False, r\<lparr>err := (if state r = StateBeginAcknowledgements then None
                               else Some (SyntaxError ''early EOF''))\<rparr>)) \<and>
   Scan f (NewProtocolV1UploadPackResponse \<lparr>frames = [FlushPacket], ending = None\<rparr>) =
     Inr (True, \<lparr>scanner = \<lparr>frames = [], ending = None\<rparr>, state = StateBeginAcknowledgements,
                 err = None, curr = Some (zero_chunk\<lparr>EndOfShallows := True\<rparr>)\<rparr>) \<and>
   Scan f \<lparr>scanner = \<lparr>frames = [], ending = None\<rparr>, state = StateBeginAcknowledgements,
            err = None, curr = Some (zero_chunk\<lparr>EndOfShallows := True\<rparr>)\<rparr> =
     Inr (False, \<lparr>scanner = \<lparr>frames = [], ending = None\<rparr>, state = StateBeginAcknowledgements,
                  err = None, curr = Some (zero_chunk\<lparr>EndOfShallows := True\<rparr>)\<rparr>) \<and>
   Scan f \<lparr>scanner = \<lparr>frames = [], ending = None\<rparr>, state = StateScanPacks,
            err = None, curr = Some (zero_chunk\<lparr>Nak := True\<rparr>)\<rparr> =
     Inr (False, \<lparr>scanner = \<lparr>frames = [], ending = None\<rparr>, state = StateScanPacks,
                  err = Some (SyntaxError ''early EOF''),
                  curr = Some (zero_chunk\<lparr>Nak := True\<rparr>)\<rparr>)"
proof (intro conjI impI)
  assume "err r = None \<and> state r \<noteq> StateEnd \<and> frames (scanner r) = [] \<and> ending (scanner r) = None"
  then show "Scan f r =
        Inr (False, r\<lparr>err := (if state r = StateBeginAcknowledgements then None
                               else Some (SyntaxError ''early EOF''))\<rparr>)"
    by (simp add: Scan_eof)
qed (simp_all add: run_simps)

text \<open>End-of-input while acknowledgements are being read.\<close>

theorem end_of_stream_policy_witness:
  "Scan (\<lambda>p. ''pkt'')
     \<lparr>scanner = \<lparr>frames = [], ending = None\<rparr>, state = StateScanAcknowledgements,
      err = None, curr = None\<rparr> =
   Inr (False,
     \<lparr>scanner = \<lparr>frames = [], ending = None\<rparr>, state = StateScanAcknowledgements,
      err = Some (SyntaxError ''early EOF''), curr = None\<rparr>)"
  using end_of_stream_policy [of "\<lparr>scanner = \<lparr>frames = [], ending = None\<rparr>,
      state = StateScanAcknowledgements, err = None, curr = None\<rparr>" "\<lambda>p. ''pkt''"]
  by simp

subsection \<open>The order of the states\<close>

lemma Scan_state_mono:
  assumes "Scan f r = Inr (ok, r')"
  shows "state_value (state r) \<le> state_value (state r')"
  using assms by (cases rule: Scan_cases) simp_all

lemma ScanN_state_mono: "state_value (state r) \<le> state_value (state (ScanN f n r))"
proof (induction n arbitrary: r)
  case 0
  show ?case by simp
next
  case (Suc n)
  obtain ok r' where s: "Scan f r = Inr (ok, r')"
    using Scan_returns by blast
  from Scan_state_mono [OF s] Suc [of r'] s show ?case by simp
qed

lemma ScanN_add: "ScanN f (m + n) r = ScanN f n (ScanN f m r)"
proof (induction m arbitrary: r)
  case 0
  show ?case by simp
next
  case (Suc m)
  obtain ok r' where s: "Scan f r = Inr (ok, r')"
    using Scan_returns by blast
  with Suc [of r'] show ?case by simp
qed

lemma ScanN_le_mono:
  assumes "i \<le> j"
  shows "state_value (state (ScanN f i r)) \<le> state_value (state (ScanN f j r))"
proof -
  from assms obtain d where "j = i + d" by (auto simp: le_iff_add)
  then show ?thesis by (simp add: ScanN_add ScanN_state_mono)
qed

lemma state_value_inj: "state_value s = state_value t \<Longrightarrow> s = t"
  by (cases s; cases t) simp_all

text \<open>
  C6 (phase monotonicity). Along successive calls of Scan, on every input, the state
  never decreases in the order Begin, ScanShallows, ScanUnshallows,
  BeginAcknowledgements, ScanAcknowledgements, ScanPacks, End (the order of the
  constants' values): the state after \<open>i\<close> calls is at most the state after \<open>j \<ge> i\<close>
  calls. Hence no state is revisited after it has been left: a state seen after \<open>i\<close>
  and after \<open>k\<close> calls is the state after every number of calls in between, so a
  state only repeats consecutively.
\<close>

theorem phase_monotonicity:
  "(i \<le> j \<longrightarrow> state_value (state (ScanN f i r)) \<le> state_value (state (ScanN f j r))) \<and>
   (i \<le> j \<and> j \<le> k \<and> state (ScanN f k r) = state (ScanN f i r) \<longrightarrow>
      state (ScanN f j r) = state (ScanN f i r))"
proof (intro conjI impI)
  assume "i \<le> j"
  then show "state_value (state (ScanN f i r)) \<le> state_value (state (ScanN f j r))"
    by (rule ScanN_le_mono)
next
  assume a: "i \<le> j \<and> j \<le> k \<and> state (ScanN f k r) = state (ScanN f i r)"
  then have "state_value (state (ScanN f i r)) \<le> state_value (state (ScanN f j r))"
    and "state_value (state (ScanN f j r)) \<le> state_value (state (ScanN f k r))"
    using ScanN_le_mono by blast+
  moreover from a have "state_value (state (ScanN f k r)) = state_value (state (ScanN f i r))"
    by simp
  ultimately have "state_value (state (ScanN f j r)) = state_value (state (ScanN f i r))"
    by linarith
  then show "state (ScanN f j r) = state (ScanN f i r)"
    by (rule state_value_inj)
qed

text \<open>A shallow line, a flush, the NAK line, a flush: the state after one call and
  after three calls.\<close>

theorem phase_monotonicity_witness:
  "state (ScanN (\<lambda>p. ''pkt'') 1
      (NewProtocolV1UploadPackResponse
         \<lparr>frames = [BytesPacket (''shallow aaaa'' @ LF), FlushPacket, BytesPacket (''NAK'' @ LF), FlushPacket],
          ending = None\<rparr>)) = StateScanShallows \<and>
   state (ScanN (\<lambda>p. ''pkt'') 3
      (NewProtocolV1UploadPackResponse
         \<lparr>frames = [BytesPacket (''shallow aaaa'' @ LF), FlushPacket, BytesPacket (''NAK'' @ LF), FlushPacket],
          ending = None\<rparr>)) = StateScanPacks \<and>
   state_value (state (ScanN (\<lambda>p. ''pkt'') 1
      (NewProtocolV1UploadPackResponse
         \<lparr>frames = [BytesPacket (''shallow aaaa'' @ LF), FlushPacket, BytesPacket (''NAK'' @ LF), FlushPacket],
          ending = None\<rparr>))) \<le>
   state_value (state (ScanN (\<lambda>p. ''pkt'') 3
      (NewProtocolV1UploadPackResponse
         \<lparr>frames = [BytesPacket (''shallow aaaa'' @ LF), FlushPacket, BytesPacket (''NAK'' @ LF), FlushPacket],
          ending = None\<rparr>)))"
proof -
  let ?r = "NewProtocolV1UploadPackResponse
         \<lparr>frames = [BytesPacket (''shallow aaaa'' @ LF), FlushPacket, BytesPacket (''NAK'' @ LF), FlushPacket],
          ending = None\<rparr>"
  have 1: "state (ScanN (\<lambda>p. ''pkt'') 1 ?r) = StateScanShallows"
    by (simp add: run_simps)
  have 3: "state (ScanN (\<lambda>p. ''pkt'') 3 ?r) = StateScanPacks"
    by (simp add: run_simps numeral_3_eq_3)
  from phase_monotonicity [of 1 3 "\<lambda>p. ''pkt''" ?r 3] 1 3 show ?thesis
    by simp
qed

subsection \<open>The encoder\<close>

text \<open>
  C4 (encoder mapping). For a chunk with exactly one variant populated the encoder
  returns the serialisation of exactly one frame, a function of the chunk alone: the
  byte payload \<open>shallow id\<close> or \<open>unshallow id\<close> followed by a newline, a flush
  frame for the end of the shallow phase, the payload \<open>ACK id\<close> and a newline when
  the detail is empty and \<open>ACK id detail\<close> and a newline otherwise, the payload
  \<open>NAK\<close> and a newline, the pack bytes unmodified, a flush frame for the end of the
  response.
\<close>

theorem EncodeToPktLine_mapping:
  assumes "populated c = 1"
  shows
   "(ShallowObjectID c \<noteq> [] \<longrightarrow>
       EncodeToPktLine pktline c = Inr (pktline (BytesPacket (''shallow '' @ ShallowObjectID c @ LF)))) \<and>
    (UnshallowObjectID c \<noteq> [] \<longrightarrow>
       EncodeToPktLine pktline c = Inr (pktline (BytesPacket (''unshallow '' @ UnshallowObjectID c @ LF)))) \<and>
    (EndOfShallows c \<longrightarrow> EncodeToPktLine pktline c = Inr (pktline FlushPacket)) \<and>
    (AckObjectID c \<noteq> [] \<and> AckDetail c = [] \<longrightarrow>
       EncodeToPktLine pktline c = Inr (pktline (BytesPacket (''ACK '' @ AckObjectID c @ LF)))) \<and>
    (AckObjectID c \<noteq> [] \<and> AckDetail c \<noteq> [] \<longrightarrow>
       EncodeToPktLine pktline c =
         Inr (pktline (BytesPacket (''ACK '' @ AckObjectID c @ '' '' @ AckDetail c @ LF)))) \<and>
    (Nak c \<longrightarrow> EncodeToPktLine pktline c = Inr (pktline (BytesPacket (''NAK'' @ LF)))) \<and>
    (PackStream c \<noteq> [] \<longrightarrow> EncodeToPktLine pktline c = Inr (pktline (BytesPacket (PackStream c)))) \<and>
    (EndOfRequest c \<longrightarrow> EncodeToPktLine pktline c = Inr (pktline FlushPacket))"
  using assms
  by (auto simp: EncodeToPktLine_def populated_def variants_def split: if_splits)

text \<open>
  The acknowledgement of \<open>bbbb\<close> with the detail \<open>continue\<close>.
\<close>

theorem EncodeToPktLine_mapping_witness:
  "populated (zero_chunk\<lparr>AckObjectID := ''bbbb'', AckDetail := ''continue''\<rparr>) = 1 \<and>
   EncodeToPktLine (\<lambda>p. p) (zero_chunk\<lparr>AckObjectID := ''bbbb'', AckDetail := ''continue''\<rparr>) =
     Inr (BytesPacket (''ACK bbbb continue'' @ LF))"
proof -
  have p: "populated (zero_chunk\<lparr>AckObjectID := ''bbbb'', AckDetail := ''continue''\<rparr>) = 1"
    by (simp add: populated_def variants_def zero_chunk_def)
  from EncodeToPktLine_mapping [OF p, of "\<lambda>p. p"] p show ?thesis
    by (simp add: zero_chunk_def)
qed

text \<open>
  C8, as stated, fails: a chunk with two populated variants, a shallow object id and
  the NAK flag, is encoded as its shallow line and nothing aborts.
\<close>

theorem EncodeToPktLine_two_variants_counterexample:
  "populated (zero_chunk\<lparr>ShallowObjectID := ''a'', Nak := True\<rparr>) = 2 \<and>
   EncodeToPktLine (\<lambda>p. p) (zero_chunk\<lparr>ShallowObjectID := ''a'', Nak := True\<rparr>) =
     Inr (BytesPacket (''shallow a'' @ LF))"
  by (simp add: populated_def variants_def zero_chunk_def EncodeToPktLine_def)

text \<open>
  C8 (encoder precondition), amended. The encoder panics with \<open>impossible chunk\<close>
  exactly when no variant of the chunk is populated. A chunk with several populated
  variants is not detected: the encoder tests the fields in the order shallow,
  unshallow, end of shallows, acknowledgement, NAK, pack data, end of request, and
  hands the frame of the first populated one to the serialisation of the framing
  layer, whatever else is populated.
\<close>

theorem EncodeToPktLine_first_populated:
  "(populated c = 0 \<longleftrightarrow> EncodeToPktLine pktline c = Inl (Panic ''impossible chunk'')) \<and>
   (ShallowObjectID c \<noteq> [] \<longrightarrow>
      EncodeToPktLine pktline c =
        Inr (pktline (BytesPacket (''shallow '' @ ShallowObjectID c @ LF)))) \<and>
   (ShallowObjectID c = [] \<and> UnshallowObjectID c \<noteq> [] \<longrightarrow>
      EncodeToPktLine pktline c =
        Inr (pktline (BytesPacket (''unshallow '' @ UnshallowObjectID c @ LF)))) \<and>
   (ShallowObjectID c = [] \<and> UnshallowObjectID c = [] \<and> EndOfShallows c \<longrightarrow>
      EncodeToPktLine pktline c = Inr (pktline FlushPacket)) \<and>
   (ShallowObjectID c = [] \<and> UnshallowObjectID c = [] \<and> \<not> EndOfShallows c \<and>
    AckObjectID c \<noteq> [] \<and> AckDetail c \<noteq> [] \<longrightarrow>
      EncodeToPktLine pktline c =
        Inr (pktline (BytesPacket (''ACK '' @ AckObjectID c @ '' '' @ AckDetail c @ LF)))) \<and>
   (ShallowObjectID c = [] \<and> UnshallowObjectID c = [] \<and> \<not> EndOfShallows c \<and>
    AckObjectID c \<noteq> [] \<and> AckDetail c = [] \<longrightarrow>
      EncodeToPktLine pktline c =
        Inr (pktline (BytesPacket (''ACK '' @ AckObjectID c @ LF)))) \<and>
   (ShallowObjectID c = [] \<and> UnshallowObjectID c = [] \<and> \<not> EndOfShallows c \<and>
    AckObjectID c = [] \<and> Nak c \<longrightarrow>
      EncodeToPktLine pktline c = Inr (pktline (BytesPacket (''NAK'' @ LF)))) \<and>
   (ShallowObjectID c = [] \<and> UnshallowObjectID c = [] \<and> \<not> EndOfShallows c \<and>
    AckObjectID c = [] \<and> \<not> Nak c \<and> PackStream c \<noteq> [] \<longrightarrow>
      EncodeToPktLine pktline c = Inr (pktline (BytesPacket (PackStream c)))) \<and>
   (ShallowObjectID c = [] \<and> UnshallowObjectID c = [] \<and> \<not> EndOfShallows c \<and>
    AckObjectID c = [] \<and> \<not> Nak c \<and> PackStream c = [] \<and> EndOfRequest c \<longrightarrow>
      EncodeToPktLine pktline c = Inr (pktline FlushPacket))"
  by (auto simp: EncodeToPktLine_def populated_def variants_def split: if_splits)

text \<open>
  A chunk with three populated variants is encoded as its unshallow line; the zero
  value of the chunk makes the encoder panic.
\<close>

theorem EncodeToPktLine_first_populated_witness:
  "populated (zero_chunk\<lparr>UnshallowObjectID := ''b'', PackStream := ''PACK'', EndOfRequest := True\<rparr>) = 3 \<and>
   EncodeToPktLine (\<lambda>p. p)
     (zero_chunk\<lparr>UnshallowObjectID := ''b'', PackStream := ''PACK'', EndOfRequest := True\<rparr>) =
     Inr (BytesPacket (''unshallow b'' @ LF)) \<and>
   populated zero_chunk = 0 \<and>
   EncodeToPktLine (\<lambda>p. p) zero_chunk = Inl (Panic ''impossible chunk'')"
proof -
  let ?c = "zero_chunk\<lparr>UnshallowObjectID := ''b'', PackStream := ''PACK'', EndOfRequest := True\<rparr>"
  have 1: "populated ?c = 3" "populated zero_chunk = 0"
    by (simp_all add: populated_def variants_def zero_chunk_def)
  have 2: "ShallowObjectID ?c = [] \<and> UnshallowObjectID ?c \<noteq> []" "UnshallowObjectID ?c = ''b''"
    by (simp_all add: zero_chunk_def)
  from EncodeToPktLine_first_populated [of ?c "\<lambda>p. p"] 2
  have "EncodeToPktLine (\<lambda>p. p) ?c = Inr (BytesPacket (''unshallow b'' @ LF))" by simp
  moreover from EncodeToPktLine_first_populated [of zero_chunk "\<lambda>p. p"] 1(2)
  have "EncodeToPktLine (\<lambda>p. p) zero_chunk = Inl (Panic ''impossible chunk'')" by blast
  ultimately show ?thesis using 1 by simp
qed

subsection \<open>Frames the cascade accepts and rejects\<close>

text \<open>
  The pieces a line is split into: a payload that starts with a literal ending in a
  space always gives at least two. Then, for each case of the switch, the frames on
  which it returns true.
\<close>

lemma split2_prefix:
  "HasPrefix bp p \<Longrightarrow> SP \<in> set p \<Longrightarrow> CHR 0x0A \<notin> set p \<Longrightarrow>
     \<not> length (SplitN (TrimSuffix bp LF) SP (Suc (Suc n))) < 2"
  using SplitN_length [OF prefix_split, of bp p n] by simp

lemma case_ScanPacks_recognised:
  "fst (case_ScanPacks f pkt r) \<longleftrightarrow> pkt = FlushPacket \<or> as_BytesPacket pkt \<noteq> None"
  by (cases pkt) (simp_all add: case_ScanPacks_def)

lemma case_Acknowledgements_recognised:
  "fst (case_Acknowledgements f pkt r) \<longleftrightarrow>
     payload_prefix pkt ''ACK '' \<or> pkt = BytesPacket (''NAK'' @ LF) \<or>
     (state r \<noteq> StateBegin \<and> (pkt = FlushPacket \<or> as_BytesPacket pkt \<noteq> None))"
  using split2_prefix [of _ "''ACK ''" "Suc 0"]
  by (cases pkt)
     (auto simp: case_Acknowledgements_def payload_prefix_def Let_def numeral_3_eq_3
        case_ScanPacks_recognised)

lemma case_ScanUnshallows_recognised:
  "fst (case_ScanUnshallows f pkt r) \<longleftrightarrow>
     payload_prefix pkt ''unshallow '' \<or> pkt = FlushPacket \<or>
     payload_prefix pkt ''ACK '' \<or> pkt = BytesPacket (''NAK'' @ LF) \<or>
     (state r \<noteq> StateBegin \<and> as_BytesPacket pkt \<noteq> None)"
  using split2_prefix [of _ "''unshallow ''" 0]
  by (cases pkt)
     (auto simp: case_ScanUnshallows_def payload_prefix_def Let_def numeral_2_eq_2
        case_Acknowledgements_recognised)

lemma case_ScanShallows_recognised:
  "fst (case_ScanShallows f pkt r) \<longleftrightarrow>
     payload_prefix pkt ''shallow '' \<or>
     payload_prefix pkt ''unshallow '' \<or> pkt = FlushPacket \<or>
     payload_prefix pkt ''ACK '' \<or> pkt = BytesPacket (''NAK'' @ LF) \<or>
     (state r \<noteq> StateBegin \<and> as_BytesPacket pkt \<noteq> None)"
  using split2_prefix [of _ "''shallow ''" 0]
  by (cases pkt)
     (auto simp: case_ScanShallows_def payload_prefix_def Let_def numeral_2_eq_2
        case_ScanUnshallows_recognised)

lemma dispatch_unmatched:
  assumes "state r = st" and "st \<noteq> StateEnd"
    and "state_value st \<le> 1 \<longrightarrow> \<not> payload_prefix pkt ''shallow ''"
    and "state_value st \<le> 2 \<longrightarrow> \<not> payload_prefix pkt ''unshallow '' \<and> pkt \<noteq> FlushPacket"
    and "state_value st \<le> 4 \<longrightarrow> \<not> payload_prefix pkt ''ACK '' \<and> pkt \<noteq> BytesPacket (''NAK'' @ LF)"
    and "1 \<le> state_value st \<longrightarrow> pkt \<noteq> FlushPacket \<and> as_BytesPacket pkt = None"
  shows "\<not> fst (dispatch st f pkt r)"
  using assms
  by (cases st)
     (auto simp: dispatch_def case_ScanShallows_recognised case_ScanUnshallows_recognised
        case_Acknowledgements_recognised case_ScanPacks_recognised)

text \<open>
  C9, as stated, fails. In the last state Scan reads nothing: with a frame waiting
  that no rule could take, it returns false and records no error. And a line need not
  be well formed to be taken: the payload \<open>shallow abc\<close> with no newline at its end
  is read in the first state as the shallow announcement of \<open>abc\<close>.
\<close>

theorem unmatched_frame_counterexample:
  "Scan (\<lambda>p. ''pkt'')
     \<lparr>scanner = \<lparr>frames = [OtherPacket ''delim''], ending = None\<rparr>,
      state = StateEnd, err = None, curr = Some (zero_chunk\<lparr>EndOfRequest := True\<rparr>)\<rparr> =
   Inr (False,
     \<lparr>scanner = \<lparr>frames = [OtherPacket ''delim''], ending = None\<rparr>,
      state = StateEnd, err = None, curr = Some (zero_chunk\<lparr>EndOfRequest := True\<rparr>)\<rparr>) \<and>
   last ''shallow abc'' \<noteq> CHR 0x0A \<and>
   Scan (\<lambda>p. ''pkt'')
     (NewProtocolV1UploadPackResponse \<lparr>frames = [BytesPacket ''shallow abc''], ending = None\<rparr>) =
   Inr (True,
     \<lparr>scanner = \<lparr>frames = [], ending = None\<rparr>, state = StateScanShallows, err = None,
      curr = Some (zero_chunk\<lparr>ShallowObjectID := ''abc''\<rparr>)\<rparr>)"
  by (simp add: run_simps)

text \<open>
  C9 (every unmatched frame is rejected), amended. A reader that has recorded no
  error and is in a state before the last one reads a frame. When no rule reachable
  from the state takes the frame, Scan returns false, records the syntax error
  \<open>unexpected packet\<close> with the rendering of the frame, and produces no chunk. A
  rule takes a frame by the test the code makes: the payload starts with \<open>shallow\<close>
  and a space (first two states), with \<open>unshallow\<close> and a space or the frame is a
  flush (first three states), the payload starts with \<open>ACK\<close> and a space or is
  \<open>NAK\<close> and a newline (first five states), the frame is a flush or a byte payload
  (every state but the first). In the last state Scan returns false and changes
  nothing.
\<close>

theorem unmatched_frame_rejected:
  "(err r = None \<and> state r \<noteq> StateEnd \<and> frames (scanner r) = pkt # ps \<and>
    (state_value (state r) \<le> 1 \<longrightarrow> \<not> payload_prefix pkt ''shallow '') \<and>
    (state_value (state r) \<le> 2 \<longrightarrow> \<not> payload_prefix pkt ''unshallow '' \<and> pkt \<noteq> FlushPacket) \<and>
    (state_value (state r) \<le> 4 \<longrightarrow>
       \<not> payload_prefix pkt ''ACK '' \<and> pkt \<noteq> BytesPacket (''NAK'' @ LF)) \<and>
    (1 \<le> state_value (state r) \<longrightarrow> pkt \<noteq> FlushPacket \<and> as_BytesPacket pkt = None) \<longrightarrow>
      Scan f r =
        Inr (False, r\<lparr>scanner := (scanner r)\<lparr>frames := ps\<rparr>,
                       err := Some (SyntaxError (''unexpected packet: '' @ f pkt))\<rparr>)) \<and>
   (state r = StateEnd \<longrightarrow> Scan f r = Inr (False, r))"
proof (intro conjI impI)
  assume a: "err r = None \<and> state r \<noteq> StateEnd \<and> frames (scanner r) = pkt # ps \<and>
    (state_value (state r) \<le> 1 \<longrightarrow> \<not> payload_prefix pkt ''shallow '') \<and>
    (state_value (state r) \<le> 2 \<longrightarrow> \<not> payload_prefix pkt ''unshallow '' \<and> pkt \<noteq> FlushPacket) \<and>
    (state_value (state r) \<le> 4 \<longrightarrow>
       \<not> payload_prefix pkt ''ACK '' \<and> pkt \<noteq> BytesPacket (''NAK'' @ LF)) \<and>
    (1 \<le> state_value (state r) \<longrightarrow> pkt \<noteq> FlushPacket \<and> as_BytesPacket pkt = None)"
  let ?r1 = "r\<lparr>scanner := (scanner r)\<lparr>frames := ps\<rparr>\<rparr>"
  obtain ok r' where d: "dispatch (state r) f pkt ?r1 = (ok, r')"
    by (metis surj_pair)
  from a have s: "Scan f r = Inr (dispatch (state r) f pkt ?r1)"
    by (simp add: Scan_frame)
  from a have "\<not> fst (dispatch (state r) f pkt ?r1)"
    by (intro dispatch_unmatched) simp_all
  with d have "dispatch (state r) f pkt ?r1 = (False, r')" by simp
  from dispatch_False [OF this] this s
  show "Scan f r =
        Inr (False, r\<lparr>scanner := (scanner r)\<lparr>frames := ps\<rparr>,
                       err := Some (SyntaxError (''unexpected packet: '' @ f pkt))\<rparr>)"
    by simp
next
  assume "state r = StateEnd"
  then show "Scan f r = Inr (False, r)" by (simp add: Scan_stopped)
qed

text \<open>
  A frame that is neither a flush nor a byte payload, in the pack state; a byte payload
  that starts no line, in the first state.
\<close>

theorem unmatched_frame_rejected_witness:
  "Scan (\<lambda>p. ''pkt'')
     \<lparr>scanner = \<lparr>frames = [OtherPacket ''delim'', FlushPacket], ending = None\<rparr>,
      state = StateScanPacks, err = None, curr = None\<rparr> =
   Inr (False,
     \<lparr>scanner = \<lparr>frames = [FlushPacket], ending = None\<rparr>,
      state = StateScanPacks, err = Some (SyntaxError ''unexpected packet: pkt''), curr = None\<rparr>) \<and>
   Scan (\<lambda>p. ''pkt'')
     \<lparr>scanner = \<lparr>frames = [BytesPacket ''hello''], ending = None\<rparr>,
      state = StateBegin, err = None, curr = None\<rparr> =
   Inr (False,
     \<lparr>scanner = \<lparr>frames = [], ending = None\<rparr>,
      state = StateBegin, err = Some (SyntaxError ''unexpected packet: pkt''), curr = None\<rparr>)"
  using
    unmatched_frame_rejected [of "\<lparr>scanner = \<lparr>frames = [OtherPacket ''delim'', FlushPacket], ending = None\<rparr>,
      state = StateScanPacks, err = None, curr = None\<rparr>" "OtherPacket ''delim''" "[FlushPacket]" "\<lambda>p. ''pkt''"]
    unmatched_frame_rejected [of "\<lparr>scanner = \<lparr>frames = [BytesPacket ''hello''], ending = None\<rparr>,
      state = StateBegin, err = None, curr = None\<rparr>" "BytesPacket ''hello''" "[]" "\<lambda>p. ''pkt''"]
  by (simp add: payload_prefix_def)

text \<open>
  C10 (the malformed-line branches are unreachable). A payload that starts with
  \<open>shallow\<close>, \<open>unshallow\<close> or \<open>ACK\<close> and a space splits into at least two pieces, so
  the test for fewer than two never succeeds: whenever Scan has read a frame, the error
  afterwards is none or the unexpected-packet error, never one that starts with
  \<open>cannot split\<close>. The payload \<open>shallow\<close>, a space and a newline is accepted in
  the states that read shallow lines, and the chunk it gives has the empty string as
  its shallow object id.
\<close>

theorem cannot_split_unreachable:
  "(HasPrefix bp ''shallow '' \<longrightarrow> 2 \<le> length (SplitN (TrimSuffix bp LF) SP 2)) \<and>
   (HasPrefix bp ''unshallow '' \<longrightarrow> 2 \<le> length (SplitN (TrimSuffix bp LF) SP 2)) \<and>
   (HasPrefix bp ''ACK '' \<longrightarrow> 2 \<le> length (SplitN (TrimSuffix bp LF) SP 3)) \<and>
   (err r = None \<and> frames (scanner r) = pkt # ps \<and> Scan f r = Inr (ok, r') \<longrightarrow>
      (Err r' = None \<or> Err r' = Some (SyntaxError (''unexpected packet: '' @ f pkt))) \<and>
      (\<forall>m. Err r' = Some (SyntaxError m) \<longrightarrow> \<not> HasPrefix m ''cannot split'')) \<and>
   (err r = None \<and> state_value (state r) \<le> 1 \<and>
    frames (scanner r) = BytesPacket (''shallow '' @ LF) # ps \<longrightarrow>
      Scan f r =
        Inr (True, r\<lparr>scanner := (scanner r)\<lparr>frames := ps\<rparr>, state := StateScanShallows,
                      curr := Some (zero_chunk\<lparr>ShallowObjectID := []\<rparr>)\<rparr>))"
proof (intro conjI impI)
  assume "HasPrefix bp ''shallow ''"
  from split2_prefix [OF this, of 0] show "2 \<le> length (SplitN (TrimSuffix bp LF) SP 2)"
    by (simp add: numeral_2_eq_2)
next
  assume "HasPrefix bp ''unshallow ''"
  from split2_prefix [OF this, of 0] show "2 \<le> length (SplitN (TrimSuffix bp LF) SP 2)"
    by (simp add: numeral_2_eq_2)
next
  assume "HasPrefix bp ''ACK ''"
  from split2_prefix [OF this, of "Suc 0"] show "2 \<le> length (SplitN (TrimSuffix bp LF) SP 3)"
    by (simp add: numeral_3_eq_3)
next
  assume a: "err r = None \<and> frames (scanner r) = pkt # ps \<and> Scan f r = Inr (ok, r')"
  then have s: "Scan f r = Inr (ok, r')" by simp
  from s a show e: "Err r' = None \<or> Err r' = Some (SyntaxError (''unexpected packet: '' @ f pkt))"
    by (cases rule: Scan_cases) (simp_all add: Err_def)
  then show "\<forall>m. Err r' = Some (SyntaxError m) \<longrightarrow> \<not> HasPrefix m ''cannot split''"
    by auto
next
  assume a: "err r = None \<and> state_value (state r) \<le> 1 \<and>
    frames (scanner r) = BytesPacket (''shallow '' @ LF) # ps"
  then have "state r = StateBegin \<or> state r = StateScanShallows"
    by (cases "state r") simp_all
  with a show "Scan f r =
        Inr (True, r\<lparr>scanner := (scanner r)\<lparr>frames := ps\<rparr>, state := StateScanShallows,
                      curr := Some (zero_chunk\<lparr>ShallowObjectID := []\<rparr>)\<rparr>)"
    by (auto simp: Scan_def Let_def scanner_read_def case_ScanShallows_def SplitN_2)
qed

text \<open>
  The shallow line with no object id, while shallow lines are being read.
\<close>

theorem cannot_split_unreachable_witness:
  "HasPrefix (''shallow '' @ LF) ''shallow '' \<and>
   SplitN (TrimSuffix (''shallow '' @ LF) LF) SP 2 = [''shallow'', []] \<and>
   Scan (\<lambda>p. ''pkt'')
     \<lparr>scanner = \<lparr>frames = [BytesPacket (''shallow '' @ LF), FlushPacket], ending = None\<rparr>,
      state = StateScanShallows, err = None, curr = None\<rparr> =
   Inr (True,
     \<lparr>scanner = \<lparr>frames = [FlushPacket], ending = None\<rparr>,
      state = StateScanShallows, err = None, curr = Some (zero_chunk\<lparr>ShallowObjectID := []\<rparr>)\<rparr>)"
  using cannot_split_unreachable [of "''shallow '' @ LF"
      "\<lparr>scanner = \<lparr>frames = [BytesPacket (''shallow '' @ LF), FlushPacket], ending = None\<rparr>,
      state = StateScanShallows, err = None, curr = None\<rparr>" "BytesPacket (''shallow '' @ LF)"
      "[FlushPacket]" "\<lambda>p. ''pkt''" True
      "\<lparr>scanner = \<lparr>frames = [FlushPacket], ending = None\<rparr>,
      state = StateScanShallows, err = None, curr = Some (zero_chunk\<lparr>ShallowObjectID := []\<rparr>)\<rparr>"]
  by (simp add: SplitN_2)

text \<open>
  C2, exactly one variant in every chunk Scan produces, fails on the code. For the
  single frame \<open>shallow\<close>, space, newline a new reader returns true and the chunk it
  produces is the zero value: no variant is populated, and the encoder panics on it.
\<close>

theorem empty_shallow_id_chunk:
  "Scan f (NewProtocolV1UploadPackResponse \<lparr>frames = [BytesPacket (''shallow '' @ LF)], ending = e\<rparr>) =
     Inr (True,
       \<lparr>scanner = \<lparr>frames = [], ending = e\<rparr>, state = StateScanShallows, err = None,
        curr = Some zero_chunk\<rparr>) \<and>
   populated zero_chunk = 0 \<and>
   EncodeToPktLine pktline zero_chunk = Inl (Panic ''impossible chunk'')"
  by (simp add: run_simps populated_def variants_def EncodeToPktLine_def)

text \<open>The same input on a stream that ends cleanly, the frame not serialised.\<close>

theorem empty_shallow_id_chunk_witness:
  "Scan (\<lambda>p. ''pkt'')
     (NewProtocolV1UploadPackResponse \<lparr>frames = [BytesPacket (''shallow '' @ LF)], ending = None\<rparr>) =
     Inr (True,
       \<lparr>scanner = \<lparr>frames = [], ending = None\<rparr>, state = StateScanShallows, err = None,
        curr = Some zero_chunk\<rparr>) \<and>
   EncodeToPktLine (\<lambda>p. p) zero_chunk = Inl (Panic ''impossible chunk'')"
  using empty_shallow_id_chunk [of "\<lambda>p. ''pkt''" None "\<lambda>p. p"] by simp

text \<open>
  C5, as stated, fails: for the single frame \<open>shallow\<close>, newline (no space) the
  first call returns false with no chunk, but the payload does not start with the
  literal \<open>shallow\<close> and a space, and the error recorded is the unexpected-packet
  error, not the malformed-line error \<open>cannot split shallow\<close>.
\<close>

theorem shallow_without_space_counterexample:
  "Scan (\<lambda>p. ''pkt'')
     (NewProtocolV1UploadPackResponse \<lparr>frames = [BytesPacket (''shallow'' @ LF)], ending = None\<rparr>) =
     Inr (False,
       \<lparr>scanner = \<lparr>frames = [], ending = None\<rparr>, state = StateBegin,
        err = Some (SyntaxError ''unexpected packet: pkt''), curr = None\<rparr>) \<and>
   SyntaxError ''unexpected packet: pkt'' \<noteq> SyntaxError (''cannot split shallow: '' @ ''shallow'' @ LF) \<and>
   \<not> HasPrefix (''shallow'' @ LF) ''shallow ''"
  by (simp add: run_simps)

text \<open>
  C5, amended. For the input made of the single byte-payload frame \<open>shallow\<close>,
  newline, whatever way the stream ends, the first call of Scan on a new reader returns
  false, produces no chunk, leaves the state at the first one, and \<open>Err\<close> is the
  syntax error \<open>unexpected packet\<close> followed by the rendering of the frame.
\<close>

theorem shallow_without_space_unexpected:
  "Scan f (NewProtocolV1UploadPackResponse \<lparr>frames = [BytesPacket (''shallow'' @ LF)], ending = e\<rparr>) =
     Inr (False,
       \<lparr>scanner = \<lparr>frames = [], ending = e\<rparr>, state = StateBegin,
        err = Some (SyntaxError (''unexpected packet: '' @ f (BytesPacket (''shallow'' @ LF)))),
        curr = None\<rparr>)"
  by (simp add: run_simps)

text \<open>The same frame on a stream that ends with a read error.\<close>

theorem shallow_without_space_unexpected_witness:
  "Scan (\<lambda>p. ''pkt'')
     (NewProtocolV1UploadPackResponse
        \<lparr>frames = [BytesPacket (''shallow'' @ LF)], ending = Some (OtherError ''reset'')\<rparr>) =
     Inr (False,
       \<lparr>scanner = \<lparr>frames = [], ending = Some (OtherError ''reset'')\<rparr>, state = StateBegin,
        err = Some (SyntaxError ''unexpected packet: pkt''), curr = None\<rparr>)"
  using shallow_without_space_unexpected [of "\<lambda>p. ''pkt''" "Some (OtherError ''reset'')"] by simp

subsection \<open>Encoding, then reading back\<close>

text \<open>
  For the frame of each variant, the states in which Scan reads it back as that
  variant, and no others.
\<close>

lemma TrimSuffix_LF_append2 [simp]:
  "ys \<noteq> [] \<Longrightarrow> TrimSuffix (xs @ ys) LF = xs @ TrimSuffix ys LF"
  by (simp add: TrimSuffix_LF butlast_append)

lemma takeWhile_sep [simp]:
  "sep \<notin> set xs \<Longrightarrow> takeWhile (\<lambda>c. c \<noteq> sep) (xs @ sep # ys) = xs"
  by (induction xs) auto

lemma dropWhile_sep [simp]:
  "sep \<notin> set xs \<Longrightarrow> dropWhile (\<lambda>c. c \<noteq> sep) (xs @ sep # ys) = sep # ys"
  by (induction xs) auto

lemma takeWhile_sep_neq [simp]:
  "sep \<in> set xs \<Longrightarrow> takeWhile (\<lambda>c. c \<noteq> sep) (xs @ ys) \<noteq> xs"
  by (metis (mono_tags, lifting) set_takeWhileD)

lemma well_formed_cases:
  assumes "well_formed c"
  obtains
    (shallow) x where "x \<noteq> []" "c = zero_chunk\<lparr>ShallowObjectID := x\<rparr>"
  | (unshallow) x where "x \<noteq> []" "c = zero_chunk\<lparr>UnshallowObjectID := x\<rparr>"
  | (end_of_shallows) "c = zero_chunk\<lparr>EndOfShallows := True\<rparr>"
  | (ack) x where "x \<noteq> []" "c = zero_chunk\<lparr>AckObjectID := x\<rparr>"
  | (ack_detail) x d where "x \<noteq> []" "d \<noteq> []" "c = zero_chunk\<lparr>AckObjectID := x, AckDetail := d\<rparr>"
  | (nak) "c = zero_chunk\<lparr>Nak := True\<rparr>"
  | (pack) x where "x \<noteq> []" "c = zero_chunk\<lparr>PackStream := x\<rparr>"
  | (end_of_request) "c = zero_chunk\<lparr>EndOfRequest := True\<rparr>"
  using assms
  by (cases c) (auto simp: well_formed_def populated_def variants_def zero_chunk_def split: if_splits)

lemma Scan_reads_shallow:
  assumes "x \<noteq> []" "err r = None"
    "frames (scanner r) = BytesPacket (''shallow '' @ x @ LF) # ps"
  shows "(\<exists>r'. Scan f r = Inr (True, r') \<and> Chunk r' = Some (zero_chunk\<lparr>ShallowObjectID := x\<rparr>)) \<longleftrightarrow>
     state r = StateBegin \<or> state r = StateScanShallows"
  using assms by (cases "state r") (auto simp: run_simps)

lemma Scan_reads_unshallow:
  assumes "x \<noteq> []" "err r = None"
    "frames (scanner r) = BytesPacket (''unshallow '' @ x @ LF) # ps"
  shows "(\<exists>r'. Scan f r = Inr (True, r') \<and> Chunk r' = Some (zero_chunk\<lparr>UnshallowObjectID := x\<rparr>)) \<longleftrightarrow>
     state r = StateBegin \<or> state r = StateScanShallows \<or> state r = StateScanUnshallows"
  using assms by (cases "state r") (auto simp: run_simps)

lemma Scan_reads_flush:
  assumes "err r = None" "frames (scanner r) = FlushPacket # ps"
  shows "((\<exists>r'. Scan f r = Inr (True, r') \<and> Chunk r' = Some (zero_chunk\<lparr>EndOfShallows := True\<rparr>)) \<longleftrightarrow>
     state r = StateBegin \<or> state r = StateScanShallows \<or> state r = StateScanUnshallows) \<and>
    ((\<exists>r'. Scan f r = Inr (True, r') \<and> Chunk r' = Some (zero_chunk\<lparr>EndOfRequest := True\<rparr>)) \<longleftrightarrow>
     state r = StateBeginAcknowledgements \<or> state r = StateScanAcknowledgements \<or>
     state r = StateScanPacks)"
  using assms by (cases "state r") (auto simp: run_simps)

lemma Scan_reads_nak:
  assumes "err r = None" "frames (scanner r) = BytesPacket (''NAK'' @ LF) # ps"
  shows "(\<exists>r'. Scan f r = Inr (True, r') \<and> Chunk r' = Some (zero_chunk\<lparr>Nak := True\<rparr>)) \<longleftrightarrow>
     state r = StateBegin \<or> state r = StateScanShallows \<or> state r = StateScanUnshallows \<or>
     state r = StateBeginAcknowledgements \<or> state r = StateScanAcknowledgements"
  using assms by (cases "state r") (auto simp: run_simps)

lemma Scan_reads_ack:
  assumes "x \<noteq> []" "err r = None"
    "frames (scanner r) = BytesPacket (''ACK '' @ x @ LF) # ps"
  shows "(\<exists>r'. Scan f r = Inr (True, r') \<and> Chunk r' = Some (zero_chunk\<lparr>AckObjectID := x\<rparr>)) \<longleftrightarrow>
     SP \<notin> set x \<and>
     (state r = StateBegin \<or> state r = StateScanShallows \<or> state r = StateScanUnshallows \<or>
      state r = StateBeginAcknowledgements \<or> state r = StateScanAcknowledgements)"
  using assms takeWhile_sep_neq [of SP x "[]"]
  by (cases "state r") (auto simp: run_simps)

lemma Scan_reads_ack_detail:
  assumes "x \<noteq> []" "d \<noteq> []" "err r = None"
    "frames (scanner r) = BytesPacket (''ACK '' @ x @ '' '' @ d @ LF) # ps"
  shows "(\<exists>r'. Scan f r = Inr (True, r') \<and>
            Chunk r' = Some (zero_chunk\<lparr>AckObjectID := x, AckDetail := d\<rparr>)) \<longleftrightarrow>
     SP \<notin> set x \<and>
     (state r = StateBegin \<or> state r = StateScanShallows \<or> state r = StateScanUnshallows \<or>
      state r = StateBeginAcknowledgements \<or> state r = StateScanAcknowledgements)"
  using assms takeWhile_sep_neq [of SP x "SP # d"]
  by (cases "state r") (auto simp: run_simps)

lemma Scan_reads_pack:
  assumes "x \<noteq> []" "err r = None" "frames (scanner r) = BytesPacket x # ps"
  shows "(\<exists>r'. Scan f r = Inr (True, r') \<and> Chunk r' = Some (zero_chunk\<lparr>PackStream := x\<rparr>)) \<longleftrightarrow>
     state r = StateScanPacks \<or>
     ((state r = StateScanShallows \<or> state r = StateScanUnshallows \<or>
       state r = StateBeginAcknowledgements \<or> state r = StateScanAcknowledgements) \<and>
      (state r = StateScanShallows \<longrightarrow> \<not> HasPrefix x ''shallow '') \<and>
      (state r = StateScanShallows \<or> state r = StateScanUnshallows \<longrightarrow> \<not> HasPrefix x ''unshallow '') \<and>
      \<not> HasPrefix x ''ACK '' \<and> x \<noteq> ''NAK'' @ LF)"
  using assms
  by (cases "state r") (auto simp: run_simps)


lemmas enc_simps = EncodeToPktLine_def reads_back_in_def zero_chunk_def

text \<open>
  C1, as stated, fails, in two ways. The acknowledgement whose object id is \<open>a b\<close>
  and whose detail is empty is well formed, its frame is the payload \<open>ACK a b\<close> and
  a newline, and a new reader reads that frame back as the acknowledgement of \<open>a\<close>
  with the detail \<open>b\<close>. The pack data \<open>NAK\<close>, newline is well formed and its
  frame carries those bytes; after an acknowledgement, where pack data is read, that
  frame is read back as the negative acknowledgement.
\<close>

theorem encode_scan_roundtrip_counterexample:
  "well_formed (zero_chunk\<lparr>AckObjectID := ''a b''\<rparr>) \<and>
   EncodeToPktLine (\<lambda>p. p) (zero_chunk\<lparr>AckObjectID := ''a b''\<rparr>) =
     Inr (BytesPacket (''ACK a b'' @ LF)) \<and>
   Scan (\<lambda>p. ''pkt'')
     (NewProtocolV1UploadPackResponse
        \<lparr>frames = [BytesPacket (''ACK a b'' @ LF), BytesPacket (''NAK'' @ LF), FlushPacket],
         ending = None\<rparr>) =
     Inr (True,
       \<lparr>scanner = \<lparr>frames = [BytesPacket (''NAK'' @ LF), FlushPacket], ending = None\<rparr>,
        state = StateScanAcknowledgements, err = None,
        curr = Some (zero_chunk\<lparr>AckObjectID := ''a'', AckDetail := ''b''\<rparr>)\<rparr>) \<and>
   zero_chunk\<lparr>AckObjectID := ''a'', AckDetail := ''b''\<rparr> \<noteq> zero_chunk\<lparr>AckObjectID := ''a b''\<rparr> \<and>
   well_formed (zero_chunk\<lparr>PackStream := ''NAK'' @ LF\<rparr>) \<and>
   EncodeToPktLine (\<lambda>p. p) (zero_chunk\<lparr>PackStream := ''NAK'' @ LF\<rparr>) =
     Inr (BytesPacket (''NAK'' @ LF)) \<and>
   Scan (\<lambda>p. ''pkt'')
     \<lparr>scanner = \<lparr>frames = [BytesPacket (''NAK'' @ LF), FlushPacket], ending = None\<rparr>,
      state = StateScanAcknowledgements, err = None,
      curr = Some (zero_chunk\<lparr>AckObjectID := ''bbbb'', AckDetail := ''continue''\<rparr>)\<rparr> =
     Inr (True,
       \<lparr>scanner = \<lparr>frames = [FlushPacket], ending = None\<rparr>,
        state = StateScanPacks, err = None, curr = Some (zero_chunk\<lparr>Nak := True\<rparr>)\<rparr>) \<and>
   zero_chunk\<lparr>Nak := True\<rparr> \<noteq> zero_chunk\<lparr>PackStream := ''NAK'' @ LF\<rparr>"
  by (simp add: run_simps well_formed_def populated_def variants_def EncodeToPktLine_def)

text \<open>
  C1 (round trip), amended. Take a well-formed chunk (exactly one variant populated,
  a detail only on an acknowledgement) and a reader that has recorded no error, whose
  next frame is the frame the encoder gives for the chunk. Scan returns true with a
  chunk equal to the original exactly in these states: a shallow announcement in the
  first two; an unshallow announcement or the end of the shallow phase in the first
  three; an acknowledgement in the first five, provided its object id contains no
  space; the negative acknowledgement in the first five; pack data in the pack state,
  and in the four states between the first and the pack state provided its bytes do
  not start a line read there (\<open>ACK\<close> and a space, \<open>NAK\<close> and a newline alone,
  \<open>unshallow\<close> and a space in the two states that read unshallow lines,
  \<open>shallow\<close> and a space in the state that reads shallow lines); the end of the
  response in the two acknowledgement states and the pack state. In every other case
  the chunk is not read back. In particular the acknowledgement of \<open>cccc\<close> with no
  detail is encoded as the payload \<open>ACK cccc\<close> and a newline, with no trailing
  space, and that payload is read back as the acknowledgement of \<open>cccc\<close> with the
  empty detail.
\<close>

theorem encode_scan_roundtrip:
  assumes "well_formed c" and "err r = None"
    and "EncodeToPktLine (\<lambda>p. p) c = Inr p" and "frames (scanner r) = p # ps"
  shows
    "((\<exists>r'. Scan f r = Inr (True, r') \<and> Chunk r' = Some c) \<longleftrightarrow> reads_back_in c (state r)) \<and>
     EncodeToPktLine pktline (zero_chunk\<lparr>AckObjectID := ''cccc''\<rparr>) =
       Inr (pktline (BytesPacket (''ACK cccc'' @ LF))) \<and>
     Scan f (NewProtocolV1UploadPackResponse \<lparr>frames = [BytesPacket (''ACK cccc'' @ LF)], ending = e\<rparr>) =
       Inr (True, \<lparr>scanner = \<lparr>frames = [], ending = e\<rparr>, state = StateScanAcknowledgements,
                   err = None, curr = Some (zero_chunk\<lparr>AckObjectID := ''cccc''\<rparr>)\<rparr>)"
proof (intro conjI)
  from assms(1)
  show "(\<exists>r'. Scan f r = Inr (True, r') \<and> Chunk r' = Some c) \<longleftrightarrow> reads_back_in c (state r)"
  proof (cases rule: well_formed_cases)
    case (shallow x)
    with assms(3,4) have "frames (scanner r) = BytesPacket (''shallow '' @ x @ LF) # ps"
      by (auto simp: enc_simps)
    from Scan_reads_shallow [OF shallow(1) assms(2) this, of f] shallow show ?thesis
      by (simp add: enc_simps)
  next
    case (unshallow x)
    with assms(3,4) have "frames (scanner r) = BytesPacket (''unshallow '' @ x @ LF) # ps"
      by (auto simp: enc_simps)
    from Scan_reads_unshallow [OF unshallow(1) assms(2) this, of f] unshallow show ?thesis
      by (simp add: enc_simps)
  next
    case end_of_shallows
    with assms(3,4) have "frames (scanner r) = FlushPacket # ps"
      by (auto simp: enc_simps)
    from Scan_reads_flush [OF assms(2) this, of f] end_of_shallows show ?thesis
      by (simp add: enc_simps)
  next
    case (ack x)
    with assms(3,4) have "frames (scanner r) = BytesPacket (''ACK '' @ x @ LF) # ps"
      by (auto simp: enc_simps)
    from Scan_reads_ack [OF ack(1) assms(2) this, of f] ack show ?thesis
      by (simp add: enc_simps)
  next
    case (ack_detail x d)
    with assms(3,4) have "frames (scanner r) = BytesPacket (''ACK '' @ x @ '' '' @ d @ LF) # ps"
      by (auto simp: enc_simps)
    from Scan_reads_ack_detail [OF ack_detail(1,2) assms(2) this, of f] ack_detail show ?thesis
      by (simp add: enc_simps)
  next
    case nak
    with assms(3,4) have "frames (scanner r) = BytesPacket (''NAK'' @ LF) # ps"
      by (auto simp: enc_simps)
    from Scan_reads_nak [OF assms(2) this, of f] nak show ?thesis
      by (simp add: enc_simps)
  next
    case (pack x)
    with assms(3,4) have "frames (scanner r) = BytesPacket x # ps"
      by (auto simp: enc_simps)
    from Scan_reads_pack [OF pack(1) assms(2) this, of f] pack show ?thesis
      by (simp add: enc_simps)
  next
    case end_of_request
    with assms(3,4) have "frames (scanner r) = FlushPacket # ps"
      by (auto simp: enc_simps)
    from Scan_reads_flush [OF assms(2) this, of f] end_of_request show ?thesis
      by (simp add: enc_simps)
  qed
qed (simp_all add: run_simps EncodeToPktLine_def)

text \<open>
  Pack data after an acknowledgement, as in a response that goes on with a flush.
\<close>

theorem encode_scan_roundtrip_witness:
  "well_formed (zero_chunk\<lparr>PackStream := ''PACK''\<rparr>) \<and>
   EncodeToPktLine (\<lambda>p. p) (zero_chunk\<lparr>PackStream := ''PACK''\<rparr>) = Inr (BytesPacket ''PACK'') \<and>
   reads_back_in (zero_chunk\<lparr>PackStream := ''PACK''\<rparr>) StateScanAcknowledgements \<and>
   (\<exists>r'. Scan (\<lambda>p. ''pkt'')
       \<lparr>scanner = \<lparr>frames = [BytesPacket ''PACK'', FlushPacket], ending = None\<rparr>,
        state = StateScanAcknowledgements, err = None,
        curr = Some (zero_chunk\<lparr>AckObjectID := ''bbbb'', AckDetail := ''continue''\<rparr>)\<rparr> =
         Inr (True, r') \<and>
      Chunk r' = Some (zero_chunk\<lparr>PackStream := ''PACK''\<rparr>))"
proof -
  let ?c = "zero_chunk\<lparr>PackStream := ''PACK''\<rparr>"
  let ?r = "\<lparr>scanner = \<lparr>frames = [BytesPacket ''PACK'', FlushPacket], ending = None\<rparr>,
        state = StateScanAcknowledgements, err = None,
        curr = Some (zero_chunk\<lparr>AckObjectID := ''bbbb'', AckDetail := ''continue''\<rparr>)\<rparr>"
  have 1: "well_formed ?c"
    by (simp add: well_formed_def populated_def variants_def zero_chunk_def)
  have 2: "err ?r = None" by simp
  have 3: "EncodeToPktLine (\<lambda>p. p) ?c = Inr (BytesPacket ''PACK'')"
    by (simp add: EncodeToPktLine_def zero_chunk_def)
  have 4: "frames (scanner ?r) = BytesPacket ''PACK'' # [FlushPacket]" by simp
  have 5: "reads_back_in ?c (state ?r)"
    by (simp add: reads_back_in_def zero_chunk_def)
  from encode_scan_roundtrip [OF 1 2 3 4, where f = "\<lambda>p. ''pkt''" and pktline = "\<lambda>p. p" and e = None] 5
  have "\<exists>r'. Scan (\<lambda>p. ''pkt'') ?r = Inr (True, r') \<and> Chunk r' = Some ?c"
    by simp
  with 1 3 5 show ?thesis by simp
qed

end
